theory Spec2Isabelle
  imports Complex_Main
begin

section \<open>FocusGuard: the session-tracking hook and the session-type modal\<close>

text \<open>
  The development embeds the two versions of the React hook \<^verbatim>\<open>useSessionTracking\<close> and the
  custom-duration handler of \<^verbatim>\<open>SessionTypeModal\<close>.

  Conventions of the embedding:
  \<^item> every \<^verbatim>\<open>useState\<close> variable and every \<^verbatim>\<open>useRef\<close> cell of the hook is a field of one
    record; a call of a hook function runs against the committed values (a render happens
    between two calls) and returns the record with the setters applied;
  \<^item> \<^verbatim>\<open>Date.now()\<close> is an argument of the function that reads it, in milliseconds
    (\<open>int\<close>); \<^verbatim>\<open>updateFocusState\<close> of the later hook reads the clock twice, so it takes
    two readings;
  \<^item> the accumulators are JavaScript numbers; they are modelled as \<open>real\<close>, so sums are exact;
  \<^item> \<^verbatim>\<open>setInterval\<close>/\<^verbatim>\<open>clearInterval\<close> act on the list of live intervals of the JavaScript
    runtime, which is part of the record, as is the log of the calls of
    \<^verbatim>\<open>window.electronAPI.notify\<close>.
\<close>

subsection \<open>Data\<close>

datatype focus_state = Focused | Distracted | Away

text \<open>The object \<^verbatim>\<open>{ faceDetected, faces, confidence }\<close> that \<^verbatim>\<open>CameraFeed\<close> reports.\<close>

record detectionResults =
  faceDetected :: bool
  confidence :: real

text \<open>The object \<^verbatim>\<open>{ type, duration, name }\<close> built by the modal.\<close>

record sessionConfig =
  config_type :: string
  config_duration :: int
  config_name :: string

text \<open>
  The three calls of \<^verbatim>\<open>notify\<close>, named by their titles: "Session Complete!", "Come Back!"
  and "Stay Hydrated!".
\<close>

datatype notification = SessionComplete | ComeBack | StayHydrated

text \<open>The two callbacks that \<^verbatim>\<open>startSession\<close> hands to \<^verbatim>\<open>setInterval\<close>.\<close>

datatype interval_kind = TickInterval | WaterInterval

text \<open>The state of the early hook, with the runtime's intervals.\<close>

record early_tracker =
  sessionActive :: bool
  sessionStartTime :: "int option"
  sessionDuration :: int
  focusedTime :: real
  distractedTime :: real
  awayTime :: real
  currentStateRef :: focus_state
  lastUpdateTimeRef :: "int option"
  intervalRef :: "nat option"
  liveIntervals :: "(nat \<times> interval_kind) list"
  nextIntervalId :: nat

text \<open>The later hook adds the countdown, the away guard, the water reminder and notifications.\<close>

record tracker = early_tracker +
  sessionType :: "string option"
  targetDuration :: int
  remainingTime :: int
  awayStartTime :: "int option"
  awayNotificationShown :: bool
  waterIntervalRef :: "nat option"
  notifyAvailable :: bool
  notifications :: "notification list"

text \<open>The summary object returned by \<^verbatim>\<open>stopSession\<close>.\<close>

record metrics =
  m_duration :: int
  m_focusedTime :: real
  m_distractedTime :: real
  m_awayTime :: real
  m_focusScore :: real

subsection \<open>JavaScript truthiness of the cells the hook tests\<close>

text \<open>\<^verbatim>\<open>null\<close> and the number 0 are falsy; every other timestamp is truthy.\<close>

definition truthy :: "int option \<Rightarrow> bool" where
  "truthy v = (case v of None \<Rightarrow> False | Some t \<Rightarrow> t \<noteq> 0)"

subsection \<open>The runtime: intervals and notifications\<close>

definition clearInterval :: "nat \<Rightarrow> (nat \<times> interval_kind) list \<Rightarrow> (nat \<times> interval_kind) list" where
  "clearInterval i ivs = filter (\<lambda>p. fst p \<noteq> i) ivs"

text \<open>\<^verbatim>\<open>if (window.electronAPI?.notify) window.electronAPI.notify(...)\<close>\<close>

definition notify :: "notification \<Rightarrow> tracker \<Rightarrow> tracker" where
  "notify n s = (if notifyAvailable s then s\<lparr>notifications := notifications s @ [n]\<rparr> else s)"

subsection \<open>The later hook\<close>

text \<open>The hook as mounted: the initial values of \<^verbatim>\<open>useState\<close> and \<^verbatim>\<open>useRef\<close>.\<close>

definition init :: "bool \<Rightarrow> tracker" where
  "init na =
     \<lparr>sessionActive = False, sessionStartTime = None, sessionDuration = 0,
      focusedTime = 0, distractedTime = 0, awayTime = 0,
      currentStateRef = Away, lastUpdateTimeRef = None, intervalRef = None,
      liveIntervals = [], nextIntervalId = 1,
      sessionType = None, targetDuration = 0, remainingTime = 0,
      awayStartTime = None, awayNotificationShown = False, waterIntervalRef = None,
      notifyAvailable = na, notifications = []\<rparr>"

definition focusScore :: "tracker \<Rightarrow> real" where
  "focusScore s =
     (if sessionDuration s > 0 then (focusedTime s / real_of_int (sessionDuration s)) * 100 else 0)"

definition stopSession :: "tracker \<Rightarrow> tracker" where
  "stopSession s =
     (let s1 = s\<lparr>sessionActive := False\<rparr>;
          s2 = (case intervalRef s1 of
                  None \<Rightarrow> s1
                | Some i \<Rightarrow> if i \<noteq> 0
                    then s1\<lparr>liveIntervals := clearInterval i (liveIntervals s1), intervalRef := None\<rparr>
                    else s1);
          s3 = (case waterIntervalRef s2 of
                  None \<Rightarrow> s2
                | Some i \<Rightarrow> if i \<noteq> 0
                    then s2\<lparr>liveIntervals := clearInterval i (liveIntervals s2), waterIntervalRef := None\<rparr>
                    else s2)
      in s3\<lparr>awayStartTime := None, awayNotificationShown := False\<rparr>)"

definition stopSession_result :: "tracker \<Rightarrow> metrics" where
  "stopSession_result s =
     \<lparr>m_duration = sessionDuration s, m_focusedTime = focusedTime s,
      m_distractedTime = distractedTime s, m_awayTime = awayTime s,
      m_focusScore = (if sessionDuration s > 0
                      then (focusedTime s / real_of_int (sessionDuration s)) * 100 else 0)\<rparr>"

definition handleSessionComplete :: "tracker \<Rightarrow> tracker" where
  "handleSessionComplete s = stopSession (notify SessionComplete s)"

text \<open>
  \<^verbatim>\<open>startSession(sessionConfig)\<close>, with \<open>now\<close> the reading of \<^verbatim>\<open>Date.now()\<close>. The two calls of
  \<^verbatim>\<open>setInterval\<close> take fresh ids; the cells are overwritten and nothing is cleared.
\<close>

definition startSession :: "sessionConfig \<Rightarrow> int \<Rightarrow> tracker \<Rightarrow> tracker" where
  "startSession sessionConfig now s =
     (let tickId = nextIntervalId s; waterId = Suc tickId in
      s\<lparr>sessionActive := True,
        sessionStartTime := Some now,
        sessionType := Some (config_type sessionConfig),
        targetDuration := config_duration sessionConfig,
        remainingTime := config_duration sessionConfig,
        sessionDuration := 0,
        focusedTime := 0,
        distractedTime := 0,
        awayTime := 0,
        awayStartTime := None,
        awayNotificationShown := False,
        currentStateRef := Away,
        lastUpdateTimeRef := Some now,
        intervalRef := Some tickId,
        waterIntervalRef := Some waterId,
        liveIntervals := liveIntervals s @ [(tickId, TickInterval), (waterId, WaterInterval)],
        nextIntervalId := Suc waterId\<rparr>)"

text \<open>The body of the 1000 ms interval callback.\<close>

definition tick :: "tracker \<Rightarrow> tracker" where
  "tick s =
     (let s1 = (if remainingTime s \<le> 1
                then (handleSessionComplete s)\<lparr>remainingTime := 0\<rparr>
                else s\<lparr>remainingTime := remainingTime s - 1\<rparr>)
      in s1\<lparr>sessionDuration := sessionDuration s1 + 1\<rparr>)"

text \<open>The body of the 30 minute interval callback.\<close>

definition waterTick :: "tracker \<Rightarrow> tracker" where
  "waterTick s = notify StayHydrated s"

text \<open>The runtime fires an interval only while it is live.\<close>

definition fireInterval :: "nat \<Rightarrow> tracker \<Rightarrow> tracker" where
  "fireInterval i s =
     (case map_of (liveIntervals s) i of
        None \<Rightarrow> s
      | Some TickInterval \<Rightarrow> tick s
      | Some WaterInterval \<Rightarrow> waterTick s)"

text \<open>The classification of lines 129 to 133.\<close>

definition classify :: "detectionResults \<Rightarrow> focus_state" where
  "classify d =
     (if faceDetected d then (if confidence d \<ge> 0.6 then Focused else Distracted) else Away)"

text \<open>
  \<^verbatim>\<open>updateFocusState(detectionResults)\<close>; \<open>now\<close> is the reading bound to \<^verbatim>\<open>const now\<close>, \<open>now2\<close>
  the later reading of \<^verbatim>\<open>Date.now()\<close> in the away branch.
\<close>

definition updateFocusState :: "detectionResults \<Rightarrow> int \<Rightarrow> int \<Rightarrow> tracker \<Rightarrow> tracker" where
  "updateFocusState d now now2 s =
     (case lastUpdateTimeRef s of
        None \<Rightarrow> s
      | Some lastUpdate \<Rightarrow>
          if \<not> sessionActive s \<or> lastUpdate = 0 then s
          else
            let newState = classify d;
                deltaSeconds = real_of_int (now - lastUpdate) / 1000;
                s1 = (case currentStateRef s of
                        Focused \<Rightarrow> s\<lparr>focusedTime := focusedTime s + deltaSeconds\<rparr>
                      | Distracted \<Rightarrow> s\<lparr>distractedTime := distractedTime s + deltaSeconds\<rparr>
                      | Away \<Rightarrow> s\<lparr>awayTime := awayTime s + deltaSeconds\<rparr>);
                s2 = (if newState = Away then
                        (case awayStartTime s of
                           None \<Rightarrow> s1\<lparr>awayStartTime := Some now2\<rparr>
                         | Some a \<Rightarrow>
                             if a = 0 then s1\<lparr>awayStartTime := Some now2\<rparr>
                             else
                               let awaySeconds = real_of_int (now2 - a) / 1000 in
                               if awaySeconds \<ge> 10 \<and> \<not> awayNotificationShown s
                               then (notify ComeBack s1)\<lparr>awayNotificationShown := True\<rparr>
                               else s1)
                      else s1\<lparr>awayStartTime := None, awayNotificationShown := False\<rparr>)
            in s2\<lparr>currentStateRef := newState, lastUpdateTimeRef := Some now\<rparr>)"

subsection \<open>Runs of the later hook\<close>

text \<open>What can happen to a mounted hook: a call of one of its functions, or a live interval firing.\<close>

datatype event =
    StartSession sessionConfig int
  | StopSession
  | UpdateFocusState detectionResults int int
  | FireInterval nat

fun step :: "event \<Rightarrow> tracker \<Rightarrow> tracker" where
  "step (StartSession c now) s = startSession c now s"
| "step StopSession s = stopSession s"
| "step (UpdateFocusState d now now2) s = updateFocusState d now now2 s"
| "step (FireInterval i) s = fireInterval i s"

fun run :: "event list \<Rightarrow> tracker \<Rightarrow> tracker" where
  "run [] s = s"
| "run (e # es) s = run es (step e s)"

text \<open>The readings of the clock never decrease along a run; \<open>t\<close> is the latest reading so far.\<close>

fun clock_monotone :: "int \<Rightarrow> event list \<Rightarrow> bool" where
  "clock_monotone t [] = True"
| "clock_monotone t (StartSession c now # es) = (t \<le> now \<and> clock_monotone now es)"
| "clock_monotone t (StopSession # es) = clock_monotone t es"
| "clock_monotone t (UpdateFocusState d now now2 # es) =
     (t \<le> now \<and> now \<le> now2 \<and> clock_monotone now2 es)"
| "clock_monotone t (FireInterval i # es) = clock_monotone t es"

definition accumulated :: "tracker \<Rightarrow> real" where
  "accumulated s = focusedTime s + distractedTime s + awayTime s"

text \<open>Seconds of wall-clock time between \<^verbatim>\<open>sessionStartTime\<close> and an observation at \<open>obs\<close>.\<close>

definition elapsedAt :: "int \<Rightarrow> tracker \<Rightarrow> real option" where
  "elapsedAt obs s =
     (case sessionStartTime s of None \<Rightarrow> None | Some t0 \<Rightarrow> Some (real_of_int (obs - t0) / 1000))"

text \<open>
  The conservation the accumulators obey: their sum is the time between the start of the
  session and the latest update that was not dropped.
\<close>

definition conserved :: "tracker \<Rightarrow> bool" where
  "conserved s =
     (case sessionStartTime s of
        None \<Rightarrow> \<not> sessionActive s \<and> lastUpdateTimeRef s = None \<and> accumulated s = 0
      | Some t0 \<Rightarrow>
          (case lastUpdateTimeRef s of
             None \<Rightarrow> False
           | Some tu \<Rightarrow> accumulated s = real_of_int (tu - t0) / 1000))"

definition countOf :: "notification \<Rightarrow> tracker \<Rightarrow> nat" where
  "countOf n s = length (filter (\<lambda>x. x = n) (notifications s))"

text \<open>A stream of detection updates, each with its two clock readings.\<close>

fun updates :: "(detectionResults \<times> int \<times> int) list \<Rightarrow> tracker \<Rightarrow> tracker" where
  "updates [] s = s"
| "updates ((d, now, now2) # us) s = updates us (updateFocusState d now now2 s)"

definition all_away :: "(detectionResults \<times> int \<times> int) list \<Rightarrow> bool" where
  "all_away us = list_all (\<lambda>(d, now, now2). classify d = Away) us"

definition clocks_nonzero :: "(detectionResults \<times> int \<times> int) list \<Rightarrow> bool" where
  "clocks_nonzero us = list_all (\<lambda>(d, now, now2). now \<noteq> 0 \<and> now2 \<noteq> 0) us"

text \<open>
  An away period, as the hook measures it: opened by the first update of the run, it is long
  when a later update of the run reads the clock 10000 ms or more after the opening.
\<close>

definition period_long :: "(detectionResults \<times> int \<times> int) list \<Rightarrow> bool" where
  "period_long us =
     (case us of
        [] \<Rightarrow> False
      | (d, now, opened) # rest \<Rightarrow> list_ex (\<lambda>(d', now', now2'). now2' - opened \<ge> 10000) rest)"

subsection \<open>The early hook\<close>





definition updateFocusState_early :: "detectionResults \<Rightarrow> int \<Rightarrow> early_tracker \<Rightarrow> early_tracker" where
  "updateFocusState_early d now s =
     (case lastUpdateTimeRef s of
        None \<Rightarrow> s
      | Some lastUpdate \<Rightarrow>
          if \<not> sessionActive s \<or> lastUpdate = 0 then s
          else
            let newState =
                  (if faceDetected d then (if confidence d \<ge> 0.6 then Focused else Distracted)
                   else Away);
                deltaSeconds = real_of_int (now - lastUpdate) / 1000;
                s1 = (case currentStateRef s of
                        Focused \<Rightarrow> s\<lparr>focusedTime := focusedTime s + deltaSeconds\<rparr>
                      | Distracted \<Rightarrow> s\<lparr>distractedTime := distractedTime s + deltaSeconds\<rparr>
                      | Away \<Rightarrow> s\<lparr>awayTime := awayTime s + deltaSeconds\<rparr>)
            in s1\<lparr>currentStateRef := newState, lastUpdateTimeRef := Some now\<rparr>)"











subsection \<open>The custom duration of the session-type modal\<close>

text \<open>
  \<^verbatim>\<open>parseInt(string, 10)\<close> of ECMAScript on a string of code units below 256: leading white
  space is skipped (tab, line feed, vertical tab, form feed, carriage return, space and
  no-break space are the white space in that range), one sign is read, then the longest run
  of decimal digits; what follows is ignored. \<open>None\<close> is \<^verbatim>\<open>NaN\<close> (no digit was read).
\<close>

definition is_white :: "char \<Rightarrow> bool" where
  "is_white c = (c \<in> set [CHR 0x09, CHR 0x0A, CHR 0x0B, CHR 0x0C, CHR 0x0D, CHR '' '', CHR 0xA0])"

definition is_digit :: "char \<Rightarrow> bool" where
  "is_digit c = (48 \<le> (of_char c :: nat) \<and> (of_char c :: nat) \<le> 57)"

definition digits_value :: "string \<Rightarrow> nat" where
  "digits_value z = foldl (\<lambda>acc c. 10 * acc + (of_char c - 48)) 0 z"

definition parseInt10 :: "string \<Rightarrow> int option" where
  "parseInt10 str =
     (let S = dropWhile is_white str;
          sgn = (case S of [] \<Rightarrow> 1 | c # cs \<Rightarrow> if c = CHR ''-'' then - 1 else (1::int));
          S' = (case S of [] \<Rightarrow> [] | c # cs \<Rightarrow> if c = CHR ''-'' \<or> c = CHR ''+'' then cs else S);
          Z = takeWhile is_digit S'
      in if Z = [] then None else Some (sgn * int (digits_value Z)))"

text \<open>The decimal numeral of a number, for the template string of the session's name.\<close>

definition digit_char :: "nat \<Rightarrow> char" where
  "digit_char n = ''0123456789'' ! (n mod 10)"

fun show_nat :: "nat \<Rightarrow> string" where
  "show_nat n = (if n < 10 then [digit_char n] else show_nat (n div 10) @ [digit_char n])"

record modal =
  customDuration :: string
  showCustomInput :: bool
  error :: string
  onSelect_calls :: "sessionConfig list"

definition handleCustomSubmit :: "modal \<Rightarrow> modal" where
  "handleCustomSubmit m =
     (case parseInt10 (customDuration m) of
        None \<Rightarrow> m\<lparr>error := ''Please enter a valid duration (minimum 1 minute)''\<rparr>
      | Some minutes \<Rightarrow>
          if minutes < 1 then m\<lparr>error := ''Please enter a valid duration (minimum 1 minute)''\<rparr>
          else if minutes > 180 then m\<lparr>error := ''Maximum duration is 180 minutes (3 hours)''\<rparr>
          else m\<lparr>onSelect_calls := onSelect_calls m @
                 [\<lparr>config_type = ''custom'', config_duration = minutes * 60,
                   config_name = show_nat (nat minutes) @ '' Minute Session''\<rparr>]\<rparr>)"

text \<open>An integer number of minutes written as a plain decimal numeral.\<close>

definition is_integer_input :: "string \<Rightarrow> bool" where
  "is_integer_input str = (str \<noteq> [] \<and> list_all is_digit str)"

definition is_sign :: "char \<Rightarrow> bool" where
  "is_sign c = (c = CHR ''-'' \<or> c = CHR ''+'')"

text \<open>
  How \<^verbatim>\<open>parseInt\<close> reads an input: white space \<open>ws\<close>, at most one sign \<open>sg\<close>, the run of
  digits \<open>ds\<close> and the rest, which begins with no digit. Every string splits so in exactly
  one way; the run of digits may be empty.
\<close>

definition well_split :: "string \<Rightarrow> string \<Rightarrow> string \<Rightarrow> string \<Rightarrow> bool" where
  "well_split ws sg ds rest =
     (list_all is_white ws \<and>
      (sg = [] \<or> sg = ''+'' \<or> sg = ''-'') \<and>
      list_all is_digit ds \<and>
      (case sg @ ds @ rest of [] \<Rightarrow> True | c # cs \<Rightarrow> \<not> is_white c) \<and>
      (sg = [] \<longrightarrow> (case ds @ rest of [] \<Rightarrow> True | c # cs \<Rightarrow> \<not> is_sign c)) \<and>
      (case rest of [] \<Rightarrow> True | c # cs \<Rightarrow> \<not> is_digit c))"

subsection \<open>Concrete inputs\<close>


definition custom60 :: sessionConfig where
  "custom60 = \<lparr>config_type = ''custom'', config_duration = 60, config_name = ''1 Minute Session''\<rparr>"

definition focusedEvent :: detectionResults where
  "focusedEvent = \<lparr>faceDetected = True, confidence = 0.9\<rparr>"

definition awayEvent :: detectionResults where
  "awayEvent = \<lparr>faceDetected = False, confidence = 0\<rparr>"

text \<open>
  What a monotone clock gives for the score: the tick counter and the focused accumulator
  are never negative, and \<open>lastUpdateTimeRef\<close> is not ahead of the clock.
\<close>

definition score_inv :: "int \<Rightarrow> tracker \<Rightarrow> bool" where
  "score_inv t s =
     (0 \<le> sessionDuration s \<and> 0 \<le> focusedTime s \<and>
      (case lastUpdateTimeRef s of None \<Rightarrow> True | Some tu \<Rightarrow> tu \<le> t))"

text \<open>
  A focused user, a first tick one second after the start, and a detection update 900 ms
  after that tick.
\<close>

definition overrun :: "event list" where
  "overrun = [StartSession custom60 1000, UpdateFocusState focusedEvent 1100 1100,
              FireInterval 1, UpdateFocusState focusedEvent 2900 2900]"






text \<open>The modal with the custom input open, holding \<open>str\<close>, before any submission.\<close>

definition modal_with :: "string \<Rightarrow> modal" where
  "modal_with str = \<lparr>customDuration = str, showCustomInput = True, error = '''', onSelect_calls = []\<rparr>"

text \<open>The handler accepts an input when it calls \<^verbatim>\<open>onSelect\<close>.\<close>

definition accepted :: "modal \<Rightarrow> bool" where
  "accepted m = (onSelect_calls (handleCustomSubmit m) \<noteq> onSelect_calls m)"

text \<open>
  The away guard of an active session whose updates are not dropped and whose notifications
  are delivered: open since the clock reading \<open>a\<close>, or closed.
\<close>

definition period_open :: "int \<Rightarrow> tracker \<Rightarrow> bool" where
  "period_open a s =
     (sessionActive s \<and> truthy (lastUpdateTimeRef s) \<and> notifyAvailable s \<and>
      awayStartTime s = Some a \<and> a \<noteq> 0)"

definition period_closed :: "tracker \<Rightarrow> bool" where
  "period_closed s =
     (sessionActive s \<and> truthy (lastUpdateTimeRef s) \<and> notifyAvailable s \<and>
      awayStartTime s = None \<and> \<not> awayNotificationShown s)"

text \<open>
  Away events every 100 ms for 15 seconds after a start at 1000, and a shorter second
  stream after a return at 17000.
\<close>

definition awayStream :: "(detectionResults \<times> int \<times> int) list" where
  "awayStream = map (\<lambda>i. (awayEvent, 1000 + 100 * int i, 1000 + 100 * int i)) [1..<151]"

definition awayStream2 :: "(detectionResults \<times> int \<times> int) list" where
  "awayStream2 = [(awayEvent, 18000, 18000), (awayEvent, 27999, 28000), (awayEvent, 30000, 30001)]"

section \<open>Properties\<close>

subsection \<open>What each operation leaves alone\<close>

lemma notify_frame [simp]:
  "sessionActive (notify n s) = sessionActive s"
  "sessionStartTime (notify n s) = sessionStartTime s"
  "sessionDuration (notify n s) = sessionDuration s"
  "focusedTime (notify n s) = focusedTime s"
  "distractedTime (notify n s) = distractedTime s"
  "awayTime (notify n s) = awayTime s"
  "currentStateRef (notify n s) = currentStateRef s"
  "lastUpdateTimeRef (notify n s) = lastUpdateTimeRef s"
  "intervalRef (notify n s) = intervalRef s"
  "waterIntervalRef (notify n s) = waterIntervalRef s"
  "liveIntervals (notify n s) = liveIntervals s"
  "nextIntervalId (notify n s) = nextIntervalId s"
  "remainingTime (notify n s) = remainingTime s"
  "awayStartTime (notify n s) = awayStartTime s"
  "awayNotificationShown (notify n s) = awayNotificationShown s"
  "notifyAvailable (notify n s) = notifyAvailable s"
  by (simp_all add: notify_def)

lemma stopSession_frame [simp]:
  "sessionActive (stopSession s) = False"
  "sessionStartTime (stopSession s) = sessionStartTime s"
  "sessionDuration (stopSession s) = sessionDuration s"
  "focusedTime (stopSession s) = focusedTime s"
  "distractedTime (stopSession s) = distractedTime s"
  "awayTime (stopSession s) = awayTime s"
  "currentStateRef (stopSession s) = currentStateRef s"
  "lastUpdateTimeRef (stopSession s) = lastUpdateTimeRef s"
  "remainingTime (stopSession s) = remainingTime s"
  "awayStartTime (stopSession s) = None"
  "awayNotificationShown (stopSession s) = False"
  "notifyAvailable (stopSession s) = notifyAvailable s"
  "notifications (stopSession s) = notifications s"
  "nextIntervalId (stopSession s) = nextIntervalId s"
  by (simp_all add: stopSession_def Let_def split: option.splits)

lemma tick_frame [simp]:
  "sessionStartTime (tick s) = sessionStartTime s"
  "focusedTime (tick s) = focusedTime s"
  "distractedTime (tick s) = distractedTime s"
  "awayTime (tick s) = awayTime s"
  "currentStateRef (tick s) = currentStateRef s"
  "lastUpdateTimeRef (tick s) = lastUpdateTimeRef s"
  "sessionDuration (tick s) = sessionDuration s + 1"
  "notifyAvailable (tick s) = notifyAvailable s"
  "nextIntervalId (tick s) = nextIntervalId s"
  by (simp_all add: tick_def handleSessionComplete_def Let_def)

lemma tick_active: "sessionActive (tick s) \<Longrightarrow> sessionActive s"
  by (simp add: tick_def handleSessionComplete_def Let_def split: if_splits)

lemma waterTick_frame [simp]:
  "sessionActive (waterTick s) = sessionActive s"
  "sessionStartTime (waterTick s) = sessionStartTime s"
  "sessionDuration (waterTick s) = sessionDuration s"
  "focusedTime (waterTick s) = focusedTime s"
  "distractedTime (waterTick s) = distractedTime s"
  "awayTime (waterTick s) = awayTime s"
  "currentStateRef (waterTick s) = currentStateRef s"
  "lastUpdateTimeRef (waterTick s) = lastUpdateTimeRef s"
  by (simp_all add: waterTick_def)

subsection \<open>Conservation of the accumulators\<close>

lemma conserved_start: "conserved (startSession c now s)"
  by (simp add: conserved_def startSession_def Let_def accumulated_def)

lemma conserved_stop: "conserved s \<Longrightarrow> conserved (stopSession s)"
  by (simp add: conserved_def accumulated_def split: option.splits)

lemma conserved_update: "conserved s \<Longrightarrow> conserved (updateFocusState d now now2 s)"
  by (auto simp add: conserved_def accumulated_def updateFocusState_def Let_def notify_def
      diff_divide_distrib add_divide_distrib
      split: option.splits focus_state.splits if_splits)

lemma conserved_fire: "conserved s \<Longrightarrow> conserved (fireInterval i s)"
  by (auto simp add: conserved_def accumulated_def fireInterval_def
      split: option.splits interval_kind.splits dest: tick_active)

lemma conserved_step: "conserved s \<Longrightarrow> conserved (step e s)"
  by (cases e) (simp_all add: conserved_start conserved_stop conserved_update conserved_fire)

lemma conserved_run: "conserved s \<Longrightarrow> conserved (run evs s)"
  by (induction evs arbitrary: s) (simp_all add: conserved_step)

lemma conserved_init: "conserved (init na)"
  by (simp add: conserved_def init_def accumulated_def)

text \<open>
  C1, as the claim states it, fails: one second after the start of a session, with one tick
  delivered and no detection update, the session is active, one second of wall-clock time
  has elapsed, and the three accumulators still sum to 0.
\<close>

theorem accumulator_conservation_counterexample:
  "sessionActive (run [StartSession custom60 1000, FireInterval 1] (init True)) \<and>
   elapsedAt 2000 (run [StartSession custom60 1000, FireInterval 1] (init True)) = Some 1 \<and>
   accumulated (run [StartSession custom60 1000, FireInterval 1] (init True)) = 0"
  by (simp add: custom60_def init_def startSession_def fireInterval_def tick_def
      elapsedAt_def accumulated_def Let_def)

text \<open>
  C1, amended: in every state the mounted hook can reach while a session is active, the sum
  \<open>focusedTime + distractedTime + awayTime\<close> is exactly the time between \<open>sessionStartTime\<close>
  and \<open>lastUpdateTimeRef\<close>, the reading of the clock at the latest update that was not
  dropped (the start itself, when there was none). Ticks do not change the sum.
\<close>

theorem accumulator_conservation:
  "sessionActive (run evs (init na)) \<longrightarrow>
     (\<exists>tu. lastUpdateTimeRef (run evs (init na)) = Some tu \<and>
           elapsedAt tu (run evs (init na)) = Some (accumulated (run evs (init na))))"
proof -
  have "conserved (run evs (init na))"
    by (rule conserved_run [OF conserved_init])
  then show ?thesis
    by (auto simp add: conserved_def elapsedAt_def split: option.splits)
qed

theorem accumulator_conservation_witness:
  "sessionActive (run [StartSession custom60 1000, UpdateFocusState focusedEvent 1500 1500,
       FireInterval 1, UpdateFocusState awayEvent 2700 2700] (init True)) \<and>
   (\<exists>tu. lastUpdateTimeRef (run [StartSession custom60 1000, UpdateFocusState focusedEvent 1500 1500,
       FireInterval 1, UpdateFocusState awayEvent 2700 2700] (init True)) = Some tu \<and>
     elapsedAt tu (run [StartSession custom60 1000, UpdateFocusState focusedEvent 1500 1500,
       FireInterval 1, UpdateFocusState awayEvent 2700 2700] (init True)) =
     Some (accumulated (run [StartSession custom60 1000, UpdateFocusState focusedEvent 1500 1500,
       FireInterval 1, UpdateFocusState awayEvent 2700 2700] (init True))))"
proof -
  have active: "sessionActive (run [StartSession custom60 1000, UpdateFocusState focusedEvent 1500 1500,
       FireInterval 1, UpdateFocusState awayEvent 2700 2700] (init True))"
    by (simp add: custom60_def focusedEvent_def awayEvent_def init_def startSession_def
        fireInterval_def tick_def updateFocusState_def classify_def Let_def)
  from active accumulator_conservation [of "[StartSession custom60 1000,
       UpdateFocusState focusedEvent 1500 1500, FireInterval 1,
       UpdateFocusState awayEvent 2700 2700]" True]
  show ?thesis by blast
qed

subsection \<open>Classification and attribution of one update\<close>

text \<open>
  C5: an update that is not dropped leaves in \<open>currentStateRef\<close> the classification of its
  event: Away when no face is detected, otherwise Focused when the confidence is at least
  0.6 and Distracted below. The bound is inclusive: 0.6 gives Focused, 0.599999 Distracted.
\<close>

theorem classification_transition:
  assumes "sessionActive s" and "lastUpdateTimeRef s = Some t" and "t \<noteq> 0"
  shows "currentStateRef (updateFocusState d now now2 s) =
           (if \<not> faceDetected d then Away
            else if confidence d \<ge> 0.6 then Focused else Distracted) \<and>
         currentStateRef (updateFocusState \<lparr>faceDetected = True, confidence = 0.6\<rparr> now now2 s) = Focused \<and>
         currentStateRef (updateFocusState \<lparr>faceDetected = True, confidence = 0.599999\<rparr> now now2 s) = Distracted"
  using assms
  by (simp add: updateFocusState_def classify_def Let_def)

theorem classification_transition_witness:
  "sessionActive (startSession custom60 1000 (init True)) \<and>
   lastUpdateTimeRef (startSession custom60 1000 (init True)) = Some 1000 \<and>
   (1000 :: int) \<noteq> 0 \<and>
   currentStateRef (updateFocusState awayEvent 1100 1100 (startSession custom60 1000 (init True))) = Away \<and>
   currentStateRef (updateFocusState \<lparr>faceDetected = True, confidence = 0.6\<rparr> 1100 1100
                     (startSession custom60 1000 (init True))) = Focused \<and>
   currentStateRef (updateFocusState \<lparr>faceDetected = True, confidence = 0.599999\<rparr> 1100 1100
                     (startSession custom60 1000 (init True))) = Distracted"
proof -
  have h1: "sessionActive (startSession custom60 1000 (init True))"
    by (simp add: startSession_def Let_def)
  have h2: "lastUpdateTimeRef (startSession custom60 1000 (init True)) = Some 1000"
    by (simp add: startSession_def Let_def)
  have h3: "(1000 :: int) \<noteq> 0"
    by simp
  from classification_transition [OF h1 h2 h3, of awayEvent 1100 1100] h1 h2
  show ?thesis by (simp add: awayEvent_def)
qed

text \<open>
  C2: an update of an active session that is not dropped adds
  \<open>delta = (now - lastUpdateTimeRef) / 1000\<close> to exactly one accumulator, the one of the
  classification held before the update, and leaves the other two as they were. The
  first update after a start at \<open>t\<close> credits its whole delta to \<open>awayTime\<close>, whatever the
  event. (The hook drops an update when \<open>lastUpdateTimeRef\<close> is falsy, so the clock reading
  0 is excluded.)
\<close>

theorem prior_state_attribution:
  assumes "sessionActive s" and "lastUpdateTimeRef s = Some t" and "t \<noteq> 0"
  shows "focusedTime (updateFocusState d now now2 s) =
           focusedTime s + (if currentStateRef s = Focused then real_of_int (now - t) / 1000 else 0) \<and>
         distractedTime (updateFocusState d now now2 s) =
           distractedTime s + (if currentStateRef s = Distracted then real_of_int (now - t) / 1000 else 0) \<and>
         awayTime (updateFocusState d now now2 s) =
           awayTime s + (if currentStateRef s = Away then real_of_int (now - t) / 1000 else 0) \<and>
         (\<forall>c s0. awayTime (updateFocusState d now now2 (startSession c t s0)) = real_of_int (now - t) / 1000 \<and>
                 focusedTime (updateFocusState d now now2 (startSession c t s0)) = 0 \<and>
                 distractedTime (updateFocusState d now now2 (startSession c t s0)) = 0)"
  using assms
  by (simp add: updateFocusState_def classify_def Let_def notify_def startSession_def
      split: focus_state.splits option.splits)

theorem prior_state_attribution_witness:
  "sessionActive (updateFocusState focusedEvent 1500 1500 (startSession custom60 1000 (init True))) \<and>
   lastUpdateTimeRef (updateFocusState focusedEvent 1500 1500 (startSession custom60 1000 (init True)))
     = Some 1500 \<and>
   (1500 :: int) \<noteq> 0 \<and>
   currentStateRef (updateFocusState focusedEvent 1500 1500 (startSession custom60 1000 (init True)))
     = Focused \<and>
   focusedTime (updateFocusState awayEvent 2500 2500
     (updateFocusState focusedEvent 1500 1500 (startSession custom60 1000 (init True)))) = 1 \<and>
   distractedTime (updateFocusState awayEvent 2500 2500
     (updateFocusState focusedEvent 1500 1500 (startSession custom60 1000 (init True)))) = 0 \<and>
   awayTime (updateFocusState awayEvent 2500 2500
     (updateFocusState focusedEvent 1500 1500 (startSession custom60 1000 (init True)))) = 1 / 2"
proof -
  have h1: "sessionActive (updateFocusState focusedEvent 1500 1500 (startSession custom60 1000 (init True)))"
    by (simp add: updateFocusState_def startSession_def Let_def)
  have h2: "lastUpdateTimeRef (updateFocusState focusedEvent 1500 1500
              (startSession custom60 1000 (init True))) = Some 1500"
    by (simp add: updateFocusState_def startSession_def Let_def)
  have h3: "(1500 :: int) \<noteq> 0"
    by simp
  have before: "currentStateRef (updateFocusState focusedEvent 1500 1500
                  (startSession custom60 1000 (init True))) = Focused"
       "focusedTime (updateFocusState focusedEvent 1500 1500
                  (startSession custom60 1000 (init True))) = 0"
       "distractedTime (updateFocusState focusedEvent 1500 1500
                  (startSession custom60 1000 (init True))) = 0"
       "awayTime (updateFocusState focusedEvent 1500 1500
                  (startSession custom60 1000 (init True))) = 1 / 2"
    by (simp_all add: updateFocusState_def startSession_def Let_def classify_def
        focusedEvent_def init_def)
  from prior_state_attribution [OF h1 h2 h3, of awayEvent 2500 2500] h1 h2 before
  show ?thesis by simp
qed

subsection \<open>Starting over\<close>

text \<open>
  C7, as the claim states it, fails: a second start while the first session is active gives
  a state different from stop followed by start. The second start clears nothing, so the
  two intervals of the first session stay live beside the two new ones.
\<close>

theorem start_reset_counterexample:
  "startSession custom60 2000 (startSession custom60 1000 (init True)) \<noteq>
   startSession custom60 2000 (stopSession (startSession custom60 1000 (init True))) \<and>
   liveIntervals (startSession custom60 2000 (startSession custom60 1000 (init True))) =
     [(1, TickInterval), (2, WaterInterval), (3, TickInterval), (4, WaterInterval)] \<and>
   liveIntervals (startSession custom60 2000 (stopSession (startSession custom60 1000 (init True)))) =
     [(3, TickInterval), (4, WaterInterval)]"
  by (simp add: startSession_def stopSession_def Let_def init_def custom60_def clearInterval_def)

text \<open>
  C7, amended: a start in any state, active or not, resets the accumulators and the tick
  counter to 0 and the classification to Away, and gives the state of stop followed by
  start in every state variable and every ref cell of the hook; the two states differ only
  in the runtime's list of live intervals.
\<close>

theorem start_reset:
  "startSession c now s =
     (startSession c now (stopSession s))
       \<lparr>liveIntervals := liveIntervals s @
          [(nextIntervalId s, TickInterval), (Suc (nextIntervalId s), WaterInterval)]\<rparr> \<and>
   focusedTime (startSession c now s) = 0 \<and>
   distractedTime (startSession c now s) = 0 \<and>
   awayTime (startSession c now s) = 0 \<and>
   sessionDuration (startSession c now s) = 0 \<and>
   currentStateRef (startSession c now s) = Away"
  by (simp add: startSession_def stopSession_def Let_def split: option.splits)

subsection \<open>Bounds of the focus score\<close>

lemma score_inv_start: "score_inv now (startSession c now s)"
  by (simp add: score_inv_def startSession_def Let_def)

lemma score_inv_stop: "score_inv t s \<Longrightarrow> score_inv t (stopSession s)"
  by (simp add: score_inv_def)

lemma score_inv_update:
  "score_inv t s \<Longrightarrow> t \<le> now \<Longrightarrow> now \<le> now2 \<Longrightarrow> score_inv now2 (updateFocusState d now now2 s)"
  by (auto simp add: score_inv_def updateFocusState_def Let_def notify_def
      split: option.splits focus_state.splits)

lemma score_inv_fire: "score_inv t s \<Longrightarrow> score_inv t (fireInterval i s)"
  by (auto simp add: score_inv_def fireInterval_def split: option.splits interval_kind.splits)

lemma score_inv_run:
  "clock_monotone t evs \<Longrightarrow> score_inv t s \<Longrightarrow>
     0 \<le> sessionDuration (run evs s) \<and> 0 \<le> focusedTime (run evs s)"
proof (induction t evs arbitrary: s rule: clock_monotone.induct)
  case (1 t)
  then show ?case by (simp add: score_inv_def)
next
  case (2 t c now es)
  then show ?case by (simp add: score_inv_start)
next
  case (3 t es)
  then show ?case by (simp add: score_inv_stop)
next
  case (4 t d now now2 es)
  then show ?case by (simp add: score_inv_update)
next
  case (5 t i es)
  then show ?case by (simp add: score_inv_fire)
qed

text \<open>
  The part of the score bounds that the hook keeps under a clock that never goes back: the
  score is at least 0, it is 0 whenever \<open>sessionDuration\<close> is 0, and it is at most 100
  exactly when \<open>sessionDuration\<close> is 0 or \<open>focusedTime\<close> does not exceed \<open>sessionDuration\<close>.
\<close>

lemma focus_score_lower_bound:
  assumes "clock_monotone t evs"
  shows "0 \<le> focusScore (run evs (init na)) \<and>
         (sessionDuration (run evs (init na)) = 0 \<longrightarrow> focusScore (run evs (init na)) = 0) \<and>
         (focusScore (run evs (init na)) \<le> 100 \<longleftrightarrow>
            sessionDuration (run evs (init na)) = 0 \<or>
            focusedTime (run evs (init na)) \<le> real_of_int (sessionDuration (run evs (init na))))"
proof -
  have "score_inv t (init na)"
    by (simp add: score_inv_def init_def)
  with assms have nn: "0 \<le> sessionDuration (run evs (init na))" "0 \<le> focusedTime (run evs (init na))"
    using score_inv_run by blast+
  show ?thesis
  proof (cases "sessionDuration (run evs (init na)) = 0")
    case True
    then show ?thesis by (simp add: focusScore_def)
  next
    case False
    with nn have pos: "0 < real_of_int (sessionDuration (run evs (init na)))" by simp
    with nn False show ?thesis
      by (simp add: focusScore_def pos_divide_le_eq)
  qed
qed

text \<open>
  C6: the focus score is a percentage, in [0,100] in every reachable state. The hook breaks
  the upper bound in ordinary use: \<open>focusedTime\<close> accumulates wall-clock time between
  detection updates while \<open>sessionDuration\<close> counts the ticks delivered. With a focused user,
  a start at 1000, the first tick, and an update at 2900, the clock never goes back, the
  session is active, \<open>sessionDuration\<close> is 1, \<open>focusedTime\<close> is 1.8 and the score is 180.
\<close>

theorem focus_score_overrun:
  "clock_monotone 0 overrun \<and> sessionActive (run overrun (init True)) \<and>
   sessionDuration (run overrun (init True)) = 1 \<and>
   focusedTime (run overrun (init True)) = 9 / 5 \<and>
   focusScore (run overrun (init True)) = 180"
  by (simp add: overrun_def custom60_def focusedEvent_def init_def startSession_def
      fireInterval_def tick_def updateFocusState_def classify_def focusScore_def Let_def)

subsection \<open>The countdown\<close>

lemma fire_frame [simp]:
  "focusedTime (fireInterval i s) = focusedTime s"
  "distractedTime (fireInterval i s) = distractedTime s"
  "awayTime (fireInterval i s) = awayTime s"
  "nextIntervalId (fireInterval i s) = nextIntervalId s"
  by (simp_all add: fireInterval_def waterTick_def split: option.splits interval_kind.splits)

lemma fires_frame [simp]:
  "focusedTime ((fireInterval i ^^ k) s) = focusedTime s"
  "distractedTime ((fireInterval i ^^ k) s) = distractedTime s"
  "awayTime ((fireInterval i ^^ k) s) = awayTime s"
  by (induction k) simp_all

lemma start_live:
  "map_of (liveIntervals s) (nextIntervalId s) = None \<Longrightarrow>
   map_of (liveIntervals (startSession c now s)) (nextIntervalId s) = Some TickInterval"
  by (simp add: startSession_def Let_def map_add_def)

lemma fire_tick: "map_of (liveIntervals s) i = Some TickInterval \<Longrightarrow> fireInterval i s = tick s"
  by (simp add: fireInterval_def)

lemma fire_dead: "map_of (liveIntervals s) i = None \<Longrightarrow> fireInterval i s = s"
  by (simp add: fireInterval_def)

lemma countdown_running:
  assumes fresh: "map_of (liveIntervals s) (nextIntervalId s) = None"
  shows "int k < config_duration c \<Longrightarrow>
     (fireInterval (nextIntervalId s) ^^ k) (startSession c now s) =
     (startSession c now s)\<lparr>remainingTime := config_duration c - int k, sessionDuration := int k\<rparr>"
proof (induction k)
  case 0
  then show ?case by (simp add: startSession_def Let_def)
next
  case (Suc k)
  then have IH: "(fireInterval (nextIntervalId s) ^^ k) (startSession c now s) =
     (startSession c now s)\<lparr>remainingTime := config_duration c - int k, sessionDuration := int k\<rparr>"
    and big: "1 < config_duration c - int k"
    by simp_all
  have live: "map_of (liveIntervals ((startSession c now s)
      \<lparr>remainingTime := config_duration c - int k, sessionDuration := int k\<rparr>)) (nextIntervalId s)
      = Some TickInterval"
    using start_live [OF fresh, of c now] by simp
  have "(fireInterval (nextIntervalId s) ^^ Suc k) (startSession c now s) =
     fireInterval (nextIntervalId s) ((startSession c now s)
      \<lparr>remainingTime := config_duration c - int k, sessionDuration := int k\<rparr>)"
    by (simp only: funpow.simps o_apply IH)
  also have "\<dots> = tick ((startSession c now s)
      \<lparr>remainingTime := config_duration c - int k, sessionDuration := int k\<rparr>)"
    by (rule fire_tick [OF live])
  also have "\<dots> = (startSession c now s)
      \<lparr>remainingTime := config_duration c - int (Suc k), sessionDuration := int (Suc k)\<rparr>"
    using big by (simp add: tick_def Let_def algebra_simps)
  finally show ?case .
qed

lemma dead_fire: "map_of (liveIntervals s) i = None \<Longrightarrow> (fireInterval i ^^ k) s = s"
  by (induction k) (simp_all add: fire_dead)

lemma map_of_clearInterval: "map_of (clearInterval i ivs) i = None"
  by (induction ivs) (auto simp add: clearInterval_def)

lemma map_of_clearInterval_other:
  "map_of ivs j = None \<Longrightarrow> map_of (clearInterval i ivs) j = None"
  by (induction ivs) (auto simp add: clearInterval_def split: if_splits)

text \<open>The completing tick: the state after as many ticks as the countdown has seconds.\<close>

lemma countdown_final:
  assumes fresh: "map_of (liveIntervals s) (nextIntervalId s) = None"
  and pos: "1 \<le> config_duration c"
  and ids: "0 < nextIntervalId s"
  shows "remainingTime ((fireInterval (nextIntervalId s) ^^ nat (config_duration c)) (startSession c now s)) = 0"
    and "sessionDuration ((fireInterval (nextIntervalId s) ^^ nat (config_duration c)) (startSession c now s))
           = config_duration c"
    and "\<not> sessionActive ((fireInterval (nextIntervalId s) ^^ nat (config_duration c)) (startSession c now s))"
    and "notifications ((fireInterval (nextIntervalId s) ^^ nat (config_duration c)) (startSession c now s))
           = (if notifyAvailable s then notifications s @ [SessionComplete] else notifications s)"
    and "map_of (liveIntervals ((fireInterval (nextIntervalId s) ^^ nat (config_duration c))
           (startSession c now s))) (nextIntervalId s) = None"
    and "intervalRef ((fireInterval (nextIntervalId s) ^^ nat (config_duration c)) (startSession c now s)) = None"
    and "waterIntervalRef ((fireInterval (nextIntervalId s) ^^ nat (config_duration c)) (startSession c now s)) = None"
proof -
  obtain k where k: "nat (config_duration c) = Suc k"
    using pos by (cases "nat (config_duration c)") auto
  then have lt: "int k < config_duration c" and one: "config_duration c - int k = 1"
    by linarith+
  have live: "map_of (liveIntervals ((startSession c now s)
      \<lparr>remainingTime := 1, sessionDuration := int k\<rparr>)) (nextIntervalId s) = Some TickInterval"
    using start_live [OF fresh, of c now] by simp
  have "(fireInterval (nextIntervalId s) ^^ nat (config_duration c)) (startSession c now s) =
        fireInterval (nextIntervalId s)
          ((startSession c now s)\<lparr>remainingTime := 1, sessionDuration := int k\<rparr>)"
    using countdown_running [OF fresh lt, of now] by (simp only: k funpow.simps o_apply one)
  then have st: "(fireInterval (nextIntervalId s) ^^ nat (config_duration c)) (startSession c now s) =
        tick ((startSession c now s)\<lparr>remainingTime := 1, sessionDuration := int k\<rparr>)"
    by (simp only: fire_tick [OF live])
  show "remainingTime ((fireInterval (nextIntervalId s) ^^ nat (config_duration c)) (startSession c now s)) = 0"
    unfolding st by (simp add: tick_def Let_def)
  show "sessionDuration ((fireInterval (nextIntervalId s) ^^ nat (config_duration c)) (startSession c now s))
           = config_duration c"
    unfolding st using one by simp
  show "\<not> sessionActive ((fireInterval (nextIntervalId s) ^^ nat (config_duration c)) (startSession c now s))"
    unfolding st by (simp add: tick_def handleSessionComplete_def Let_def)
  show "notifications ((fireInterval (nextIntervalId s) ^^ nat (config_duration c)) (startSession c now s))
           = (if notifyAvailable s then notifications s @ [SessionComplete] else notifications s)"
    unfolding st by (simp add: tick_def handleSessionComplete_def Let_def startSession_def notify_def)
  show "map_of (liveIntervals ((fireInterval (nextIntervalId s) ^^ nat (config_duration c))
           (startSession c now s))) (nextIntervalId s) = None"
    unfolding st using ids by (simp add: tick_def handleSessionComplete_def Let_def
        startSession_def stopSession_def notify_def map_of_clearInterval map_of_clearInterval_other)
  show "intervalRef ((fireInterval (nextIntervalId s) ^^ nat (config_duration c)) (startSession c now s)) = None"
    unfolding st using ids by (simp add: tick_def handleSessionComplete_def Let_def
        startSession_def stopSession_def notify_def)
  show "waterIntervalRef ((fireInterval (nextIntervalId s) ^^ nat (config_duration c)) (startSession c now s)) = None"
    unfolding st using ids by (simp add: tick_def handleSessionComplete_def Let_def
        startSession_def stopSession_def notify_def)
qed

lemma countdown_after:
  assumes fresh: "map_of (liveIntervals s) (nextIntervalId s) = None"
  and pos: "1 \<le> config_duration c"
  and ids: "0 < nextIntervalId s"
  and late: "config_duration c \<le> int k"
  shows "(fireInterval (nextIntervalId s) ^^ k) (startSession c now s) =
         (fireInterval (nextIntervalId s) ^^ nat (config_duration c)) (startSession c now s)"
proof -
  have "k = (k - nat (config_duration c)) + nat (config_duration c)"
    using late pos by linarith
  then have "(fireInterval (nextIntervalId s) ^^ k) (startSession c now s) =
     (fireInterval (nextIntervalId s) ^^ (k - nat (config_duration c)))
       ((fireInterval (nextIntervalId s) ^^ nat (config_duration c)) (startSession c now s))"
    by (metis funpow_add o_apply)
  then show ?thesis
    by (simp add: dead_fire countdown_final(5) [OF fresh pos ids])
qed




text \<open>
  C9, amended: in a session of \<open>n \<ge> 1\<close> seconds that receives only ticks and no detection
  update, no time is attributed to any accumulator (all three stay 0 at every tick), the
  session is active exactly until the \<open>n\<close>-th tick, which stops it, and \<open>sessionDuration\<close>
  is then \<open>n\<close>.
\<close>

theorem no_events_scenario:
  assumes "1 \<le> config_duration c"
    and "map_of (liveIntervals s) (nextIntervalId s) = None" and "0 < nextIntervalId s"
  shows "(\<forall>k. focusedTime ((fireInterval (nextIntervalId s) ^^ k) (startSession c now s)) = 0 \<and>
              distractedTime ((fireInterval (nextIntervalId s) ^^ k) (startSession c now s)) = 0 \<and>
              awayTime ((fireInterval (nextIntervalId s) ^^ k) (startSession c now s)) = 0) \<and>
         (\<forall>k. sessionActive ((fireInterval (nextIntervalId s) ^^ k) (startSession c now s))
                \<longleftrightarrow> int k < config_duration c) \<and>
         sessionDuration ((fireInterval (nextIntervalId s) ^^ nat (config_duration c)) (startSession c now s))
           = config_duration c"
proof (intro conjI allI)
  fix k
  show "focusedTime ((fireInterval (nextIntervalId s) ^^ k) (startSession c now s)) = 0"
       "distractedTime ((fireInterval (nextIntervalId s) ^^ k) (startSession c now s)) = 0"
       "awayTime ((fireInterval (nextIntervalId s) ^^ k) (startSession c now s)) = 0"
    by (simp_all add: startSession_def Let_def)
  show "sessionActive ((fireInterval (nextIntervalId s) ^^ k) (startSession c now s))
                \<longleftrightarrow> int k < config_duration c"
  proof (cases "int k < config_duration c")
    case True
    then show ?thesis
      unfolding countdown_running [OF assms(2) True, of now] by (simp add: startSession_def Let_def)
  next
    case False
    then have ge: "config_duration c \<le> int k" by simp
    show ?thesis
      unfolding countdown_after [OF assms(2) assms(1) assms(3) ge, of now]
      using False countdown_final(3) [OF assms(2) assms(1) assms(3), of now] by simp
  qed
next
  show "sessionDuration ((fireInterval (nextIntervalId s) ^^ nat (config_duration c)) (startSession c now s))
           = config_duration c"
    by (rule countdown_final(2) [OF assms(2) assms(1) assms(3)])
qed

text \<open>
  C9, as the claim states it, fails: after the 60 ticks of a 60 second session without
  detection updates, the session has stopped with \<open>sessionDuration = 60\<close> and \<open>awayTime\<close> is
  0, not 60.
\<close>

theorem no_events_scenario_counterexample:
  "awayTime ((fireInterval 1 ^^ 60) (startSession custom60 1000 (init True))) = 0 \<and>
   sessionDuration ((fireInterval 1 ^^ 60) (startSession custom60 1000 (init True))) = 60 \<and>
   \<not> sessionActive ((fireInterval 1 ^^ 60) (startSession custom60 1000 (init True)))"
proof -
  have h1: "1 \<le> config_duration custom60" by (simp add: custom60_def)
  have h3: "map_of (liveIntervals (init True)) (nextIntervalId (init True)) = None"
    by (simp add: init_def)
  have h4: "0 < nextIntervalId (init True)" by (simp add: init_def)
  have i: "nextIntervalId (init True) = 1" by (simp add: init_def)
  have d: "nat (config_duration custom60) = 60" "config_duration custom60 = 60"
    by (simp_all add: custom60_def)
  have a: "awayTime ((fireInterval 1 ^^ 60) (startSession custom60 1000 (init True))) = 0"
    by (simp add: startSession_def Let_def)
  from countdown_final(2,3) [OF h3 h1 h4, of 1000, unfolded i d] a
  show ?thesis by simp
qed

theorem no_events_scenario_witness:
  "1 \<le> config_duration custom60 \<and>
   map_of (liveIntervals (init True)) (nextIntervalId (init True)) = None \<and>
   0 < nextIntervalId (init True) \<and>
   focusedTime ((fireInterval (nextIntervalId (init True)) ^^ 60) (startSession custom60 1000 (init True))) = 0 \<and>
   distractedTime ((fireInterval (nextIntervalId (init True)) ^^ 60) (startSession custom60 1000 (init True))) = 0 \<and>
   awayTime ((fireInterval (nextIntervalId (init True)) ^^ 60) (startSession custom60 1000 (init True))) = 0 \<and>
   sessionActive ((fireInterval (nextIntervalId (init True)) ^^ 59) (startSession custom60 1000 (init True))) \<and>
   \<not> sessionActive ((fireInterval (nextIntervalId (init True)) ^^ 60) (startSession custom60 1000 (init True))) \<and>
   sessionDuration ((fireInterval (nextIntervalId (init True)) ^^ 60) (startSession custom60 1000 (init True))) = 60"
proof -
  have h1: "1 \<le> config_duration custom60" by (simp add: custom60_def)
  have h3: "map_of (liveIntervals (init True)) (nextIntervalId (init True)) = None"
    by (simp add: init_def)
  have h4: "0 < nextIntervalId (init True)" by (simp add: init_def)
  have d: "nat (config_duration custom60) = 60" "config_duration custom60 = 60"
    by (simp_all add: custom60_def)
  note T = no_events_scenario [OF h1 h3 h4, of 1000, unfolded d]
  from T have acc: "\<And>k. focusedTime ((fireInterval (nextIntervalId (init True)) ^^ k) (startSession custom60 1000 (init True))) = 0 \<and>
              distractedTime ((fireInterval (nextIntervalId (init True)) ^^ k) (startSession custom60 1000 (init True))) = 0 \<and>
              awayTime ((fireInterval (nextIntervalId (init True)) ^^ k) (startSession custom60 1000 (init True))) = 0"
    by blast
  from T have act: "\<And>k. sessionActive ((fireInterval (nextIntervalId (init True)) ^^ k) (startSession custom60 1000 (init True)))
                \<longleftrightarrow> int k < 60"
    by blast
  from T have dur: "sessionDuration ((fireInterval (nextIntervalId (init True)) ^^ 60) (startSession custom60 1000 (init True))) = 60"
    by simp
  show ?thesis
    using h1 h3 h4 acc [of 60] act [of 59] act [of 60] dur by simp
qed

subsection \<open>The away notification\<close>

lemma update_open:
  assumes "period_open a s" and "classify d = Away" and "now \<noteq> 0"
  shows "period_open a (updateFocusState d now now2 s)"
    and "awayNotificationShown (updateFocusState d now now2 s) \<longleftrightarrow>
           awayNotificationShown s \<or> 10000 \<le> now2 - a"
    and "countOf ComeBack (updateFocusState d now now2 s) =
           countOf ComeBack s + (if \<not> awayNotificationShown s \<and> 10000 \<le> now2 - a then 1 else 0)"
  using assms
  by (auto simp add: period_open_def truthy_def updateFocusState_def Let_def notify_def countOf_def
      split: option.splits focus_state.splits)

lemma updates_open:
  "period_open a s \<Longrightarrow> all_away us \<Longrightarrow> clocks_nonzero us \<Longrightarrow>
     period_open a (updates us s) \<and>
     (awayNotificationShown (updates us s) \<longleftrightarrow>
        awayNotificationShown s \<or> list_ex (\<lambda>(d, now, now2). 10000 \<le> now2 - a) us) \<and>
     countOf ComeBack (updates us s) =
       countOf ComeBack s +
       (if \<not> awayNotificationShown s \<and> list_ex (\<lambda>(d, now, now2). 10000 \<le> now2 - a) us then 1 else 0)"
proof (induction us arbitrary: s)
  case Nil
  then show ?case by simp
next
  case (Cons u us)
  obtain d now now2 where u: "u = (d, now, now2)" by (cases u) auto
  from Cons.prems u have aw: "classify d = Away" and nz: "now \<noteq> 0"
    and rest: "all_away us" "clocks_nonzero us"
    by (simp_all add: all_away_def clocks_nonzero_def)
  note U = update_open [OF Cons.prems(1) aw nz, of now2]
  from Cons.IH [OF U(1) rest] U(2) U(3) show ?case
    by (auto simp add: u)
qed

lemma update_closed_away:
  assumes "period_closed s" and "classify d = Away" and "now \<noteq> 0" and "now2 \<noteq> 0"
  shows "period_open now2 (updateFocusState d now now2 s)"
    and "\<not> awayNotificationShown (updateFocusState d now now2 s)"
    and "countOf ComeBack (updateFocusState d now now2 s) = countOf ComeBack s"
  using assms
  by (auto simp add: period_open_def period_closed_def truthy_def updateFocusState_def Let_def
      notify_def countOf_def split: option.splits focus_state.splits)

lemma update_not_away:
  assumes "sessionActive s" and "truthy (lastUpdateTimeRef s)" and "notifyAvailable s"
    and "classify d \<noteq> Away" and "now \<noteq> 0"
  shows "period_closed (updateFocusState d now now2 s)"
    and "countOf ComeBack (updateFocusState d now now2 s) = countOf ComeBack s"
  using assms
  by (auto simp add: period_closed_def truthy_def updateFocusState_def Let_def
      notify_def countOf_def split: option.splits focus_state.splits)

lemma updates_append: "updates (us @ vs) s = updates vs (updates us s)"
  by (induction us arbitrary: s) auto

lemma one_period:
  assumes "period_closed s" and "all_away us" and "clocks_nonzero us"
  shows "countOf ComeBack (updates us s) = countOf ComeBack s + (if period_long us then 1 else 0)"
    and "sessionActive (updates us s)" and "truthy (lastUpdateTimeRef (updates us s))"
    and "notifyAvailable (updates us s)"
proof -
  have "countOf ComeBack (updates us s) = countOf ComeBack s + (if period_long us then 1 else 0) \<and>
        sessionActive (updates us s) \<and> truthy (lastUpdateTimeRef (updates us s)) \<and>
        notifyAvailable (updates us s)"
  proof (cases us)
    case Nil
    with assms(1) show ?thesis by (simp add: period_long_def period_closed_def)
  next
    case (Cons u rest)
    obtain d now now2 where u: "u = (d, now, now2)" by (cases u) auto
    from assms(2,3) Cons u have aw: "classify d = Away" and nz: "now \<noteq> 0" "now2 \<noteq> 0"
      and rest: "all_away rest" "clocks_nonzero rest"
      by (simp_all add: all_away_def clocks_nonzero_def)
    note F = update_closed_away [OF assms(1) aw nz]
    from updates_open [OF F(1) rest] F(2) F(3) show ?thesis
      by (simp add: Cons u period_long_def period_open_def)
  qed
  then show "countOf ComeBack (updates us s) = countOf ComeBack s + (if period_long us then 1 else 0)"
    and "sessionActive (updates us s)" and "truthy (lastUpdateTimeRef (updates us s))"
    and "notifyAvailable (updates us s)"
    by simp_all
qed

lemma notification_only_late:
  "countOf ComeBack (updateFocusState d now now2 s) \<noteq> countOf ComeBack s \<Longrightarrow>
     classify d = Away \<and> \<not> awayNotificationShown s \<and>
     (\<exists>a. awayStartTime s = Some a \<and> 10000 \<le> now2 - a) \<and>
     countOf ComeBack (updateFocusState d now now2 s) = countOf ComeBack s + 1"
  by (auto simp add: updateFocusState_def Let_def notify_def countOf_def
      split: option.splits focus_state.splits if_splits)

lemma away_step:
  "classify d = Away \<Longrightarrow>
     (countOf ComeBack (updateFocusState d now now2 s) = countOf ComeBack s \<and>
      (awayNotificationShown s \<longrightarrow> awayNotificationShown (updateFocusState d now now2 s))) \<or>
     (countOf ComeBack (updateFocusState d now now2 s) = countOf ComeBack s + 1 \<and>
      \<not> awayNotificationShown s \<and> awayNotificationShown (updateFocusState d now now2 s))"
  by (auto simp add: updateFocusState_def Let_def notify_def countOf_def
      split: option.splits focus_state.splits)

lemma away_shown_silent:
  "all_away us \<Longrightarrow> awayNotificationShown s \<Longrightarrow>
     countOf ComeBack (updates us s) = countOf ComeBack s"
proof (induction us arbitrary: s)
  case Nil
  then show ?case by simp
next
  case (Cons u us)
  obtain d now now2 where u: "u = (d, now, now2)" by (cases u) auto
  from Cons.prems u have aw: "classify d = Away" and rest: "all_away us"
    by (simp_all add: all_away_def)
  from away_step [OF aw, of now now2 s] Cons.prems(2)
  have "countOf ComeBack (updateFocusState d now now2 s) = countOf ComeBack s"
    and "awayNotificationShown (updateFocusState d now now2 s)"
    by auto
  with Cons.IH [OF rest] show ?case by (simp add: u)
qed

lemma at_most_one_per_period:
  "all_away us \<Longrightarrow> countOf ComeBack (updates us s) \<le> countOf ComeBack s + 1"
proof (induction us arbitrary: s)
  case Nil
  then show ?case by simp
next
  case (Cons u us)
  obtain d now now2 where u: "u = (d, now, now2)" by (cases u) auto
  from Cons.prems u have aw: "classify d = Away" and rest: "all_away us"
    by (simp_all add: all_away_def)
  from away_step [OF aw, of now now2 s] show ?case
  proof
    assume "countOf ComeBack (updateFocusState d now now2 s) = countOf ComeBack s \<and>
      (awayNotificationShown s \<longrightarrow> awayNotificationShown (updateFocusState d now now2 s))"
    with Cons.IH [OF rest, of "updateFocusState d now now2 s"] show ?thesis
      by (simp add: u)
  next
    assume "countOf ComeBack (updateFocusState d now now2 s) = countOf ComeBack s + 1 \<and>
      \<not> awayNotificationShown s \<and> awayNotificationShown (updateFocusState d now now2 s)"
    with away_shown_silent [OF rest, of "updateFocusState d now now2 s"] show ?thesis
      by (simp add: u)
  qed
qed

text \<open>
  C3: take an active session whose away guard is closed (as after a start, or after an update
  that was not classified Away), then a run \<open>us1\<close> of updates classified Away, one update that
  is not, and a second run \<open>us2\<close> classified Away. Each run is one away period: it sends one
  "come back" notification when one of its updates reads the clock 10000 ms or more after
  the update that opened it, and none otherwise, so at most one per period. The update
  that is not Away closes the period and clears the flag, so the two periods together send
  one notification for each that is long, two when both are. Whatever the state, an update
  sends a notification only if it is classified Away, none was sent in the open period and
  the period has been open for 10000 ms or more, and then it sends exactly one; and a run of
  updates classified Away sends at most one notification from any state.
\<close>

theorem away_notification_debounce:
  assumes "period_closed s"
    and "all_away us1" and "clocks_nonzero us1"
    and "classify d \<noteq> Away" and "now \<noteq> 0"
    and "all_away us2" and "clocks_nonzero us2"
  shows "countOf ComeBack (updates us1 s) = countOf ComeBack s + (if period_long us1 then 1 else 0) \<and>
         awayStartTime (updates (us1 @ [(d, now, now2)]) s) = None \<and>
         \<not> awayNotificationShown (updates (us1 @ [(d, now, now2)]) s) \<and>
         countOf ComeBack (updates (us1 @ (d, now, now2) # us2) s) =
           countOf ComeBack s + (if period_long us1 then 1 else 0) + (if period_long us2 then 1 else 0) \<and>
         (\<forall>s' d' n n2. countOf ComeBack (updateFocusState d' n n2 s') \<noteq> countOf ComeBack s' \<longrightarrow>
            classify d' = Away \<and> \<not> awayNotificationShown s' \<and>
            (\<exists>a. awayStartTime s' = Some a \<and> 10000 \<le> n2 - a) \<and>
            countOf ComeBack (updateFocusState d' n n2 s') = countOf ComeBack s' + 1) \<and>
         (\<forall>s' us. all_away us \<longrightarrow> countOf ComeBack (updates us s') \<le> countOf ComeBack s' + 1)"
proof -
  note P1 = one_period [OF assms(1) assms(2) assms(3)]
  note G = update_not_away [OF P1(2) P1(3) P1(4) assms(4) assms(5), of now2]
  note P2 = one_period [OF G(1) assms(6) assms(7)]
  have closed: "awayStartTime (updates (us1 @ [(d, now, now2)]) s) = None"
       "\<not> awayNotificationShown (updates (us1 @ [(d, now, now2)]) s)"
    using G(1) by (simp_all add: updates_append period_closed_def)
  have two: "countOf ComeBack (updates (us1 @ (d, now, now2) # us2) s) =
           countOf ComeBack s + (if period_long us1 then 1 else 0) + (if period_long us2 then 1 else 0)"
    using P1(1) G(2) P2(1) by (simp add: updates_append)
  show ?thesis
    using P1(1) closed two notification_only_late at_most_one_per_period by blast
qed

lemma stream_away: "all_away awayStream"
  by (simp add: all_away_def awayStream_def list_all_iff awayEvent_def classify_def)

lemma stream_nonzero: "clocks_nonzero awayStream"
  by (auto simp add: clocks_nonzero_def awayStream_def list_all_iff)

lemma upt_split: "[1..<151] = 1 # [2..<151]"
  by (simp add: upt_conv_Cons)

lemma stream_long: "period_long awayStream"
proof -
  have "\<exists>i\<in>{2..<151::nat}. (10000::int) \<le> 100 * int i - 100"
    by (rule bexI [of _ 101]) simp_all
  then show ?thesis
    unfolding period_long_def awayStream_def upt_split
    by (simp add: list_ex_iff)
qed

theorem away_notification_debounce_witness:
  "period_closed (startSession custom60 1000 (init True)) \<and>
   all_away awayStream \<and> clocks_nonzero awayStream \<and> period_long awayStream \<and>
   classify focusedEvent \<noteq> Away \<and> (17000 :: int) \<noteq> 0 \<and>
   all_away awayStream2 \<and> clocks_nonzero awayStream2 \<and> period_long awayStream2 \<and>
   countOf ComeBack (updates awayStream (startSession custom60 1000 (init True))) = 1 \<and>
   countOf ComeBack (updates (awayStream @ (focusedEvent, 17000, 17000) # awayStream2)
      (startSession custom60 1000 (init True))) = 2"
proof -
  have h1: "period_closed (startSession custom60 1000 (init True))"
    by (simp add: period_closed_def startSession_def init_def truthy_def Let_def)
  have h4: "classify focusedEvent \<noteq> Away"
    by (simp add: classify_def focusedEvent_def)
  have h5: "(17000 :: int) \<noteq> 0" by simp
  have h6: "all_away awayStream2" and h7: "clocks_nonzero awayStream2" and l2: "period_long awayStream2"
    by (simp_all add: all_away_def clocks_nonzero_def period_long_def awayStream2_def awayEvent_def
        classify_def)
  have z: "countOf ComeBack (startSession custom60 1000 (init True)) = 0"
    by (simp add: countOf_def startSession_def init_def Let_def)
  from away_notification_debounce [OF h1 stream_away stream_nonzero h4 h5 h6 h7, of 17000]
  have "countOf ComeBack (updates awayStream (startSession custom60 1000 (init True))) =
          countOf ComeBack (startSession custom60 1000 (init True)) + (if period_long awayStream then 1 else 0)"
    and "countOf ComeBack (updates (awayStream @ (focusedEvent, 17000, 17000) # awayStream2)
          (startSession custom60 1000 (init True))) =
          countOf ComeBack (startSession custom60 1000 (init True)) +
          (if period_long awayStream then 1 else 0) + (if period_long awayStream2 then 1 else 0)"
    by blast+
  with z stream_long l2 have
    "countOf ComeBack (updates awayStream (startSession custom60 1000 (init True))) = 1"
    "countOf ComeBack (updates (awayStream @ (focusedEvent, 17000, 17000) # awayStream2)
          (startSession custom60 1000 (init True))) = 2"
    by simp_all
  with h1 stream_away stream_nonzero stream_long h4 h5 h6 h7 l2 show ?thesis
    by blast
qed

subsection \<open>The two versions of the hook\<close>

lemma update_intervals [simp]:
  "intervalRef (updateFocusState d now now2 s) = intervalRef s"
  "liveIntervals (updateFocusState d now now2 s) = liveIntervals s"
  "nextIntervalId (updateFocusState d now now2 s) = nextIntervalId s"
  by (simp_all add: updateFocusState_def Let_def notify_def
      split: option.splits focus_state.splits)

lemma update_early_intervals [simp]:
  "intervalRef (updateFocusState_early d now s) = intervalRef s"
  "liveIntervals (updateFocusState_early d now s) = liveIntervals s"
  "nextIntervalId (updateFocusState_early d now s) = nextIntervalId s"
  by (simp_all add: updateFocusState_early_def Let_def split: option.splits focus_state.splits)


















subsection \<open>Validation of the custom duration\<close>

lemma digit_not_white: "is_digit c \<Longrightarrow> \<not> is_white c"
  by (auto simp add: is_digit_def is_white_def)

lemma digit_not_sign: "is_digit c \<Longrightarrow> \<not> is_sign c"
  by (auto simp add: is_digit_def is_sign_def)

lemma dropWhile_keeps:
  "(case xs of [] \<Rightarrow> True | c # cs \<Rightarrow> \<not> P c) \<Longrightarrow> dropWhile P xs = xs"
  by (cases xs) auto

lemma takeWhile_run:
  "list_all P ds \<Longrightarrow> (case rest of [] \<Rightarrow> True | c # cs \<Rightarrow> \<not> P c) \<Longrightarrow>
     takeWhile P (ds @ rest) = ds"
  by (cases rest) (auto simp add: list_all_iff takeWhile_tail)

lemma dropWhile_head:
  "case dropWhile P xs of [] \<Rightarrow> True | c # cs \<Rightarrow> \<not> P c"
  by (induction xs) auto

text \<open>What \<^verbatim>\<open>parseInt\<close> yields on an input, from the way the input splits.\<close>

lemma parseInt10_split:
  assumes "well_split ws sg ds rest"
  shows "parseInt10 (ws @ sg @ ds @ rest) =
           (if ds = [] then None
            else Some ((if sg = ''-'' then - 1 else 1) * int (digits_value ds)))"
proof -
  from assms have ws: "list_all is_white ws"
    and sg: "sg = [] \<or> sg = ''+'' \<or> sg = ''-''"
    and ds: "list_all is_digit ds"
    and nw: "case sg @ ds @ rest of [] \<Rightarrow> True | c # cs \<Rightarrow> \<not> is_white c"
    and ns: "sg = [] \<longrightarrow> (case ds @ rest of [] \<Rightarrow> True | c # cs \<Rightarrow> \<not> is_sign c)"
    and nd: "case rest of [] \<Rightarrow> True | c # cs \<Rightarrow> \<not> is_digit c"
    by (simp_all add: well_split_def)
  have S: "dropWhile is_white (ws @ sg @ ds @ rest) = sg @ ds @ rest"
    using ws dropWhile_keeps [OF nw] by (simp add: dropWhile_append list_all_iff)
  have Z: "takeWhile is_digit (ds @ rest) = ds"
    by (rule takeWhile_run [OF ds nd])
  have P: "parseInt10 (ws @ sg @ ds @ rest) =
     (let S = sg @ ds @ rest;
          sgn = (case S of [] \<Rightarrow> 1 | c # cs \<Rightarrow> if c = CHR ''-'' then - 1 else (1::int));
          S' = (case S of [] \<Rightarrow> [] | c # cs \<Rightarrow> if c = CHR ''-'' \<or> c = CHR ''+'' then cs else S);
          Z = takeWhile is_digit S'
      in if Z = [] then None else Some (sgn * int (digits_value Z)))"
    by (simp only: parseInt10_def S)
  from sg show ?thesis
  proof (elim disjE)
    assume e: "sg = []"
    show ?thesis
    proof (cases "ds @ rest")
      case Nil
      then show ?thesis unfolding P by (simp add: e)
    next
      case (Cons c cs)
      with ns e have "c \<noteq> CHR ''-''" "c \<noteq> CHR ''+''" by (simp_all add: is_sign_def)
      with Cons Z show ?thesis
        unfolding P by (simp add: Let_def e)
    qed
  next
    assume e: "sg = ''+''"
    show ?thesis using Z unfolding P by (simp add: Let_def e)
  next
    assume e: "sg = ''-''"
    show ?thesis using Z unfolding P by (simp add: Let_def e)
  qed
qed

text \<open>Every input splits.\<close>

lemma split_exists:
  "\<exists>ws sg ds rest. str = ws @ sg @ ds @ rest \<and> well_split ws sg ds rest"
proof -
  define ws where "ws = takeWhile is_white str"
  define S where "S = dropWhile is_white str"
  define sg where "sg = (case S of [] \<Rightarrow> [] | c # cs \<Rightarrow> if is_sign c then [c] else [])"
  define T where "T = (case S of [] \<Rightarrow> [] | c # cs \<Rightarrow> if is_sign c then cs else S)"
  define ds where "ds = takeWhile is_digit T"
  define rest where "rest = dropWhile is_digit T"
  have a: "str = ws @ S" by (simp add: ws_def S_def)
  have b: "S = sg @ T" by (cases S) (auto simp add: sg_def T_def)
  have c: "T = ds @ rest" by (simp add: ds_def rest_def)
  have w1: "list_all is_white ws" by (simp add: ws_def list_all_iff) (meson set_takeWhileD)
  have w2: "sg = [] \<or> sg = ''+'' \<or> sg = ''-''"
    by (cases S) (auto simp add: sg_def is_sign_def)
  have w3: "list_all is_digit ds" by (simp add: ds_def list_all_iff) (meson set_takeWhileD)
  have w4: "case sg @ ds @ rest of [] \<Rightarrow> True | c # cs \<Rightarrow> \<not> is_white c"
    using dropWhile_head [of is_white str] by (simp add: S_def [symmetric] b c)
  have w5: "sg = [] \<longrightarrow> (case ds @ rest of [] \<Rightarrow> True | c # cs \<Rightarrow> \<not> is_sign c)"
    by (cases S) (auto simp add: sg_def T_def c [symmetric] split: if_splits)
  have w6: "case rest of [] \<Rightarrow> True | c # cs \<Rightarrow> \<not> is_digit c"
    unfolding rest_def by (rule dropWhile_head)
  have "str = ws @ sg @ ds @ rest" by (simp add: a b c)
  moreover have "well_split ws sg ds rest"
    using w1 w2 w3 w4 w5 w6 by (simp add: well_split_def)
  ultimately show ?thesis by blast
qed

lemma submit_cases:
  "handleCustomSubmit m =
     (case parseInt10 (customDuration m) of
        Some k \<Rightarrow> if 1 \<le> k \<and> k \<le> 180
          then m\<lparr>onSelect_calls := onSelect_calls m @
                 [\<lparr>config_type = ''custom'', config_duration = k * 60,
                   config_name = show_nat (nat k) @ '' Minute Session''\<rparr>]\<rparr>
          else if k < 1 then m\<lparr>error := ''Please enter a valid duration (minimum 1 minute)''\<rparr>
          else m\<lparr>error := ''Maximum duration is 180 minutes (3 hours)''\<rparr>
      | None \<Rightarrow> m\<lparr>error := ''Please enter a valid duration (minimum 1 minute)''\<rparr>)"
  by (simp add: handleCustomSubmit_def split: option.splits)

text \<open>
  C8, amended: the handler reads the input with \<^verbatim>\<open>parseInt(input, 10)\<close>: leading white space
  is skipped, at most one sign is read, and the run of decimal digits that follows is the
  number; whatever comes after it is ignored. The input is accepted exactly when that run
  is not empty, the sign is not a minus, and the number is in [1,180]; the handler then
  calls \<open>onSelect\<close> once, with \<open>duration = number * 60\<close>, and changes nothing else. Every
  other input is rejected: \<open>onSelect\<close> is not called, the input is kept, and the message is
  the one about the maximum when the number is above 180 (and the sign no minus), the one
  about a valid duration otherwise (no digits, a minus sign, or 0). Every input splits in
  this way, so every input is covered.
\<close>

theorem custom_duration_validation:
  assumes "well_split ws sg ds rest" and "customDuration m = ws @ sg @ ds @ rest"
  shows "(accepted m \<longleftrightarrow>
            ds \<noteq> [] \<and> sg \<noteq> ''-'' \<and> 1 \<le> digits_value ds \<and> digits_value ds \<le> 180) \<and>
         (accepted m \<longrightarrow>
            handleCustomSubmit m = m\<lparr>onSelect_calls := onSelect_calls m @
               [\<lparr>config_type = ''custom'', config_duration = int (digits_value ds) * 60,
                 config_name = show_nat (digits_value ds) @ '' Minute Session''\<rparr>]\<rparr>) \<and>
         (\<not> accepted m \<longrightarrow>
            handleCustomSubmit m =
              m\<lparr>error := (if ds \<noteq> [] \<and> sg \<noteq> ''-'' \<and> 180 < digits_value ds
                           then ''Maximum duration is 180 minutes (3 hours)''
                           else ''Please enter a valid duration (minimum 1 minute)'')\<rparr>) \<and>
         (\<forall>str. \<exists>ws' sg' ds' rest'. str = ws' @ sg' @ ds' @ rest' \<and> well_split ws' sg' ds' rest')"
proof -
  have p: "parseInt10 (customDuration m) =
           (if ds = [] then None
            else Some ((if sg = ''-'' then - 1 else 1) * int (digits_value ds)))"
    using parseInt10_split [OF assms(1)] by (simp add: assms(2))
  have "(accepted m \<longleftrightarrow>
            ds \<noteq> [] \<and> sg \<noteq> ''-'' \<and> 1 \<le> digits_value ds \<and> digits_value ds \<le> 180) \<and>
         (accepted m \<longrightarrow>
            handleCustomSubmit m = m\<lparr>onSelect_calls := onSelect_calls m @
               [\<lparr>config_type = ''custom'', config_duration = int (digits_value ds) * 60,
                 config_name = show_nat (digits_value ds) @ '' Minute Session''\<rparr>]\<rparr>) \<and>
         (\<not> accepted m \<longrightarrow>
            handleCustomSubmit m =
              m\<lparr>error := (if ds \<noteq> [] \<and> sg \<noteq> ''-'' \<and> 180 < digits_value ds
                           then ''Maximum duration is 180 minutes (3 hours)''
                           else ''Please enter a valid duration (minimum 1 minute)'')\<rparr>)"
    by (auto simp add: accepted_def submit_cases p)
  then show ?thesis
    using split_exists by blast
qed


text \<open>
  C8, as the claim states it, fails: the input 12.5 is not an integer number of minutes, and
  it is accepted, as a session of 12 minutes (720 seconds).
\<close>

theorem custom_duration_validation_counterexample:
  "\<not> is_integer_input ''12.5'' \<and>
   handleCustomSubmit (modal_with ''12.5'') =
     \<lparr>customDuration = ''12.5'', showCustomInput = True, error = [],
      onSelect_calls = [\<lparr>config_type = ''custom'', config_duration = 720,
                         config_name = ''12 Minute Session''\<rparr>]\<rparr>"
  by (simp add: modal_with_def is_integer_input_def handleCustomSubmit_def parseInt10_def
      is_white_def is_digit_def digits_value_def digit_char_def)

lemmas split_defs = well_split_def is_white_def is_digit_def is_sign_def

theorem custom_duration_validation_witness:
  "well_split [] [] ''45'' ''.9'' \<and> customDuration (modal_with ''45.9'') = [] @ [] @ ''45'' @ ''.9'' \<and>
   handleCustomSubmit (modal_with ''45.9'') =
     (modal_with ''45.9'')\<lparr>onSelect_calls :=
        [\<lparr>config_type = ''custom'', config_duration = 2700, config_name = ''45 Minute Session''\<rparr>]\<rparr> \<and>
   well_split '' '' ''+'' ''7'' [] \<and> customDuration (modal_with '' +7'') = '' '' @ ''+'' @ ''7'' @ [] \<and>
   handleCustomSubmit (modal_with '' +7'') =
     (modal_with '' +7'')\<lparr>onSelect_calls :=
        [\<lparr>config_type = ''custom'', config_duration = 420, config_name = ''7 Minute Session''\<rparr>]\<rparr> \<and>
   well_split [] [] ''181'' [] \<and> customDuration (modal_with ''181'') = [] @ [] @ ''181'' @ [] \<and>
   handleCustomSubmit (modal_with ''181'') =
     (modal_with ''181'')\<lparr>error := ''Maximum duration is 180 minutes (3 hours)''\<rparr> \<and>
   well_split [] ''-'' ''5'' [] \<and> customDuration (modal_with ''-5'') = [] @ ''-'' @ ''5'' @ [] \<and>
   handleCustomSubmit (modal_with ''-5'') =
     (modal_with ''-5'')\<lparr>error := ''Please enter a valid duration (minimum 1 minute)''\<rparr> \<and>
   well_split [] [] [] ''.5'' \<and> customDuration (modal_with ''.5'') = [] @ [] @ [] @ ''.5'' \<and>
   handleCustomSubmit (modal_with ''.5'') =
     (modal_with ''.5'')\<lparr>error := ''Please enter a valid duration (minimum 1 minute)''\<rparr> \<and>
   well_split [] [] [] [] \<and> customDuration (modal_with []) = [] @ [] @ [] @ [] \<and>
   handleCustomSubmit (modal_with []) =
     (modal_with [])\<lparr>error := ''Please enter a valid duration (minimum 1 minute)''\<rparr>"
proof -
  have v: "digits_value ''45'' = 45" "digits_value ''7'' = 7" "digits_value ''181'' = 181"
    "digits_value ''5'' = 5" "show_nat 45 = ''45''" "show_nat 7 = ''7''"
    by (simp_all add: digits_value_def digit_char_def)
  have w1: "well_split [] [] ''45'' ''.9''"
    and e1: "customDuration (modal_with ''45.9'') = [] @ [] @ ''45'' @ ''.9''"
    by (simp_all add: split_defs modal_with_def)
  note T1 = custom_duration_validation [OF w1 e1]
  from T1 [THEN conjunct1] v have a1: "accepted (modal_with ''45.9'')" by simp
  from T1 [THEN conjunct2, THEN conjunct1] a1 v
  have r1: "handleCustomSubmit (modal_with ''45.9'') =
     (modal_with ''45.9'')\<lparr>onSelect_calls :=
        [\<lparr>config_type = ''custom'', config_duration = 2700, config_name = ''45 Minute Session''\<rparr>]\<rparr>"
    by (simp add: modal_with_def)
  have w2: "well_split '' '' ''+'' ''7'' []"
    and e2: "customDuration (modal_with '' +7'') = '' '' @ ''+'' @ ''7'' @ []"
    by (simp_all add: split_defs modal_with_def)
  note T2 = custom_duration_validation [OF w2 e2]
  from T2 [THEN conjunct1] v have a2: "accepted (modal_with '' +7'')" by simp
  from T2 [THEN conjunct2, THEN conjunct1] a2 v
  have r2: "handleCustomSubmit (modal_with '' +7'') =
     (modal_with '' +7'')\<lparr>onSelect_calls :=
        [\<lparr>config_type = ''custom'', config_duration = 420, config_name = ''7 Minute Session''\<rparr>]\<rparr>"
    by (simp add: modal_with_def)
  have w3: "well_split [] [] ''181'' []"
    and e3: "customDuration (modal_with ''181'') = [] @ [] @ ''181'' @ []"
    by (simp_all add: split_defs modal_with_def)
  note T3 = custom_duration_validation [OF w3 e3]
  from T3 [THEN conjunct1] v have a3: "\<not> accepted (modal_with ''181'')" by simp
  from T3 [THEN conjunct2, THEN conjunct2, THEN conjunct1] a3 v
  have r3: "handleCustomSubmit (modal_with ''181'') =
     (modal_with ''181'')\<lparr>error := ''Maximum duration is 180 minutes (3 hours)''\<rparr>"
    by simp
  have w4: "well_split [] ''-'' ''5'' []"
    and e4: "customDuration (modal_with ''-5'') = [] @ ''-'' @ ''5'' @ []"
    by (simp_all add: split_defs modal_with_def)
  note T4 = custom_duration_validation [OF w4 e4]
  from T4 [THEN conjunct1] have a4: "\<not> accepted (modal_with ''-5'')" by simp
  from T4 [THEN conjunct2, THEN conjunct2, THEN conjunct1] a4
  have r4: "handleCustomSubmit (modal_with ''-5'') =
     (modal_with ''-5'')\<lparr>error := ''Please enter a valid duration (minimum 1 minute)''\<rparr>"
    by simp
  have w5: "well_split [] [] [] ''.5''"
    and e5: "customDuration (modal_with ''.5'') = [] @ [] @ [] @ ''.5''"
    by (simp_all add: split_defs modal_with_def)
  note T5 = custom_duration_validation [OF w5 e5]
  from T5 [THEN conjunct1] have a5: "\<not> accepted (modal_with ''.5'')" by simp
  from T5 [THEN conjunct2, THEN conjunct2, THEN conjunct1] a5
  have r5: "handleCustomSubmit (modal_with ''.5'') =
     (modal_with ''.5'')\<lparr>error := ''Please enter a valid duration (minimum 1 minute)''\<rparr>"
    by simp
  have w6: "well_split [] [] [] []"
    and e6: "customDuration (modal_with []) = [] @ [] @ [] @ []"
    by (simp_all add: split_defs modal_with_def)
  note T6 = custom_duration_validation [OF w6 e6]
  from T6 [THEN conjunct1] have a6: "\<not> accepted (modal_with [])" by simp
  from T6 [THEN conjunct2, THEN conjunct2, THEN conjunct1] a6
  have r6: "handleCustomSubmit (modal_with []) =
     (modal_with [])\<lparr>error := ''Please enter a valid duration (minimum 1 minute)''\<rparr>"
    by simp
  from w1 e1 r1 w2 e2 r2 w3 e3 r3 w4 e4 r4 w5 e5 r5 w6 e6 r6 show ?thesis
    by (intro conjI)
qed

end
